theory Spec2Isabelle
  imports Main "HOL-Library.AList" "HOL-Library.Multiset"
begin

section \<open>Data model\<close>

text \<open>
  An endpoint is a Python dict with the keys \<^verbatim>\<open>path\<close>, \<^verbatim>\<open>method\<close>, \<^verbatim>\<open>summary\<close> and
  \<^verbatim>\<open>func_name\<close>. The generators read \<^verbatim>\<open>path\<close>, \<^verbatim>\<open>method\<close> and \<^verbatim>\<open>func_name\<close> by
  subscription, so these keys are always there; \<^verbatim>\<open>summary\<close> is read with
  \<^verbatim>\<open>ep.get('summary', '')\<close> and may be absent, hence the option.

  Python strings are modelled as HOL strings and the case mappings \<^verbatim>\<open>str.lower\<close> and
  \<^verbatim>\<open>str.upper\<close> as the ASCII case mappings: HTTP verbs are ASCII, and characters outside
  the letters A-Z and a-z are left as they are.
\<close>

record endpoint =
  path :: string
  "method" :: string
  summary :: "string option"
  func_name :: string

definition lower_char :: "char \<Rightarrow> char" where
  "lower_char c =
     (let n = (of_char c :: nat) in if 65 \<le> n \<and> n \<le> 90 then char_of (n + 32) else c)"

definition upper_char :: "char \<Rightarrow> char" where
  "upper_char c =
     (let n = (of_char c :: nat) in if 97 \<le> n \<and> n \<le> 122 then char_of (n - 32) else c)"

definition lower :: "string \<Rightarrow> string" where
  "lower s = map lower_char s"

definition upper :: "string \<Rightarrow> string" where
  "upper s = map upper_char s"

text \<open>\<^verbatim>\<open>ep.get('summary', '')\<close>\<close>

definition get_summary :: "endpoint \<Rightarrow> string" where
  "get_summary ep = (case summary ep of None \<Rightarrow> '''' | Some s \<Rightarrow> s)"

text \<open>The single quote, which cannot stand at either end of a string literal.\<close>

definition SQ :: string where
  "SQ = [CHR 0x27]"

subsection \<open>The prebuilt demos (\<^verbatim>\<open>demo_apis\<close>)\<close>

definition todo_api :: "endpoint list" where
  "todo_api =
     [\<lparr>path = ''/todos'', method = ''GET'', summary = Some ''List todos'',
        func_name = ''list_todos''\<rparr>,
      \<lparr>path = ''/todos'', method = ''POST'', summary = Some ''Create todo'',
        func_name = ''create_todo''\<rparr>]"

definition notes_api :: "endpoint list" where
  "notes_api =
     [\<lparr>path = ''/notes'', method = ''GET'', summary = Some ''List notes'',
        func_name = ''list_notes''\<rparr>,
      \<lparr>path = ''/notes'', method = ''POST'', summary = Some ''Create note'',
        func_name = ''create_note''\<rparr>]"

definition calculator_api :: "endpoint list" where
  "calculator_api =
     [\<lparr>path = ''/add'', method = ''GET'', summary = Some ''Add two numbers'',
        func_name = ''add''\<rparr>,
      \<lparr>path = ''/multiply'', method = ''GET'', summary = Some ''Multiply two numbers'',
        func_name = ''multiply''\<rparr>]"

section \<open>The quality score (\<^verbatim>\<open>evaluate_api_quality\<close>)\<close>

text \<open>
  The function follows the source statement by statement; every \<^verbatim>\<open>score += k\<close> is a
  rebinding of \<open>score\<close>. Python's integers are unbounded, so the score is an \<open>int\<close>.
\<close>

definition evaluate_api_quality :: "endpoint list \<Rightarrow> int" where
  "evaluate_api_quality endpoints =
     (let score = 0 in
      if endpoints = [] then 0
      else
        let score = (if 3 \<le> length endpoints then score + 5
                     else if length endpoints = 2 then score + 3
                     else score + 1);
            methods = map (\<lambda>ep. upper (method ep)) endpoints;
            score = (if ''GET'' \<in> set methods \<and> ''POST'' \<in> set methods then score + 3
                     else if ''GET'' \<in> set methods \<or> ''POST'' \<in> set methods then score + 1
                     else score);
            clarity_count = sum_list (map (\<lambda>ep. (1::int))
                              (filter (\<lambda>ep. 3 < length (func_name ep)) endpoints));
            score = (if int (length endpoints) \<le> clarity_count then score + 2
                     else if 0 < clarity_count then score + 1
                     else score)
        in score)"

subsection \<open>The three heuristics as the specification words them\<close>

definition breadth_points :: "endpoint list \<Rightarrow> int" where
  "breadth_points eps =
     (if 3 \<le> length eps then 5 else if length eps = 2 then 3 else 1)"

text \<open>A verb occurs among the methods, compared without regard to case.\<close>

definition occurs_ci :: "string \<Rightarrow> endpoint list \<Rightarrow> bool" where
  "occurs_ci verb eps = list_ex (\<lambda>ep. lower (method ep) = lower verb) eps"

definition crud_points :: "endpoint list \<Rightarrow> int" where
  "crud_points eps =
     (if occurs_ci ''GET'' eps \<and> occurs_ci ''POST'' eps then 3
      else if occurs_ci ''GET'' eps \<noteq> occurs_ci ''POST'' eps then 1
      else 0)"

definition clear_name :: "endpoint \<Rightarrow> bool" where
  "clear_name ep = (3 < length (func_name ep))"

definition clarity_points :: "endpoint list \<Rightarrow> int" where
  "clarity_points eps =
     (if list_all clear_name eps then 2
      else if list_ex clear_name eps then 1
      else 0)"

section \<open>The OpenAPI document (\<^verbatim>\<open>generate_openapi\<close>)\<close>

text \<open>
  The document handed to \<^verbatim>\<open>yaml.safe_dump\<close> is a nest of dicts, one list and strings.
  Python dicts keep their keys in insertion order and the document is dumped with
  \<^verbatim>\<open>sort_keys=False\<close>, so a dict is an association list: the order of the keys is
  part of the value.
\<close>

datatype yaml = YStr string | YSeq "yaml list" | YMap "(string \<times> yaml) list"

type_synonym operations = "(string \<times> yaml) list"

type_synonym paths = "(string \<times> operations) list"

text \<open>
  \<^verbatim>\<open>d.setdefault(k, default)\<close> returns the value stored under \<open>k\<close>; when there is none
  it first stores the default under \<open>k\<close>, as the last key. The assignment
  \<^verbatim>\<open>d[k] = v\<close> is \<^const>\<open>AList.update\<close>: it replaces the value of a key that is there,
  leaving the key at its place, and adds a new key at the end.
\<close>

definition setdefault :: "'k \<Rightarrow> 'v \<Rightarrow> ('k \<times> 'v) list \<Rightarrow> 'v \<times> ('k \<times> 'v) list" where
  "setdefault k dflt d =
     (case map_of d k of
        Some v \<Rightarrow> (v, d)
      | None \<Rightarrow> (dflt, d @ [(k, dflt)]))"

text \<open>
  The body of the loop. \<^verbatim>\<open>spec['paths'].setdefault(path, {})[method] = {...}\<close> assigns
  into the dict that \<^verbatim>\<open>setdefault\<close> returns, which is the very object stored under
  \<open>path\<close>; the model writes the updated inner dict back under that key.
\<close>

definition add_endpoint :: "paths \<Rightarrow> endpoint \<Rightarrow> paths" where
  "add_endpoint paths ep =
     (let path = path ep;
          method = lower (method ep);
          (inner, paths) = setdefault path [] paths;
          inner = AList.update method
                    (YMap [(''summary'', YStr (get_summary ep)),
                           (''responses'',
                              YMap [(''200'', YMap [(''description'', YStr ''Success'')])])])
                    inner
      in AList.update path inner paths)"

definition spec_paths :: "endpoint list \<Rightarrow> paths" where
  "spec_paths endpoints = foldl add_endpoint [] endpoints"

definition openapi_spec :: "string \<Rightarrow> string \<Rightarrow> string \<Rightarrow> endpoint list \<Rightarrow> yaml" where
  "openapi_spec api_name version desc endpoints =
     YMap [(''openapi'', YStr ''3.0.3''),
           (''info'', YMap [(''title'', YStr api_name), (''version'', YStr version),
                            (''description'', YStr desc)]),
           (''servers'', YSeq [YMap [(''url'', YStr ''{{baseUrl}}'')]]),
           (''paths'', YMap (map (\<lambda>(p, ops). (p, YMap ops)) (spec_paths endpoints)))]"

text \<open>
  \<^verbatim>\<open>yaml.safe_dump\<close> belongs to the PyYAML library, not to this program; it is a
  parameter of the model, the function from documents to their text.
\<close>

definition generate_openapi ::
  "(yaml \<Rightarrow> string) \<Rightarrow> string \<Rightarrow> string \<Rightarrow> string \<Rightarrow> endpoint list \<Rightarrow> string" where
  "generate_openapi safe_dump api_name version desc endpoints =
     safe_dump (openapi_spec api_name version desc endpoints)"

subsection \<open>Reading the document\<close>


text \<open>
  The entry the specification gives for an operation with summary \<open>s\<close>:
  \<^verbatim>\<open>{summary: s, responses: {"200": {description: "Success"}}}\<close>.
\<close>

definition operation_entry :: "string \<Rightarrow> yaml" where
  "operation_entry s =
     YMap [(''summary'', YStr s),
           (''responses'', YMap [(''200'', YMap [(''description'', YStr ''Success'')])])]"

text \<open>The entry stored for a path and a lower-case method, if there is one.\<close>

definition paths_lookup :: "paths \<Rightarrow> string \<Rightarrow> string \<Rightarrow> yaml option" where
  "paths_lookup ps p m = (case map_of ps p of None \<Rightarrow> None | Some ops \<Rightarrow> map_of ops m)"

text \<open>An endpoint is for the path \<open>p\<close> and the lower-case method \<open>m\<close>.\<close>

definition is_for :: "string \<Rightarrow> string \<Rightarrow> endpoint \<Rightarrow> bool" where
  "is_for p m ep = (path ep = p \<and> lower (method ep) = m)"

text \<open>The inner dict stored under a path, empty when the path is not a key.\<close>

definition ops_at :: "paths \<Rightarrow> string \<Rightarrow> operations" where
  "ops_at ps p = (case map_of ps p of None \<Rightarrow> [] | Some ops \<Rightarrow> ops)"

text \<open>No inner dict has a key twice.\<close>

definition inner_distinct :: "paths \<Rightarrow> bool" where
  "inner_distinct ps = (\<forall>p ops. map_of ps p = Some ops \<longrightarrow> distinct (map fst ops))"

text \<open>Two endpoints for the same path whose methods differ in case only.\<close>

definition todo_twice :: "endpoint list" where
  "todo_twice =
     [\<lparr>path = ''/todos'', method = ''GET'', summary = Some ''List todos'',
        func_name = ''list_todos''\<rparr>,
      \<lparr>path = ''/todos'', method = ''get'', summary = Some ''All todos'',
        func_name = ''all_todos''\<rparr>]"

section \<open>The server scaffold (\<^verbatim>\<open>scaffold_fastapi_app\<close>)\<close>

subsection \<open>Rendering a Jinja template\<close>

text \<open>
  The server text is made by \<^verbatim>\<open>Template(...).render(...)\<close>. The template is embedded
  as the sequence of nodes Jinja parses it into, and rendering as an interpreter of these
  nodes, for the constructs the template uses: template data, the output of an
  expression, and a for loop. Values are strings, endpoint dicts, lists and Jinja's
  \<^verbatim>\<open>Undefined\<close>.
\<close>

datatype jvalue = JStr string | JDict endpoint | JList "jvalue list" | JUndefined

datatype jerror = UndefinedError | NotModelled

datatype jexpr = Name string | Getattr jexpr string | CallLower jexpr

datatype jnode = TemplateData string | Output jexpr | For string jexpr "jnode list"

type_synonym jcontext = "(string \<times> jvalue) list"

text \<open>
  \<^verbatim>\<open>ep.name\<close> on a dict is the item under that key, \<^verbatim>\<open>Undefined\<close> when the key is
  absent; only \<^verbatim>\<open>summary\<close> can be absent from an endpoint. An attribute of
  \<^verbatim>\<open>Undefined\<close> raises \<^verbatim>\<open>UndefinedError\<close>. The attributes a Python dict, str or list
  has of its own (\<^verbatim>\<open>items\<close>, \<^verbatim>\<open>keys\<close>, ...) are left out: the template reads none.
\<close>

fun getattr :: "jvalue \<Rightarrow> string \<Rightarrow> jerror + jvalue" where
  "getattr (JDict ep) name =
     (if name = ''path'' then Inr (JStr (path ep))
      else if name = ''method'' then Inr (JStr (method ep))
      else if name = ''summary'' then
        (case summary ep of None \<Rightarrow> Inr JUndefined | Some s \<Rightarrow> Inr (JStr s))
      else if name = ''func_name'' then Inr (JStr (func_name ep))
      else Inr JUndefined)"
| "getattr JUndefined name = Inl UndefinedError"
| "getattr (JStr s) name = Inr JUndefined"
| "getattr (JList vs) name = Inr JUndefined"

text \<open>
  A name that the context does not bind is \<^verbatim>\<open>Undefined\<close>. \<^verbatim>\<open>e.lower()\<close> is the
  lower-cased string; on a value without that method the call raises
  \<^verbatim>\<open>UndefinedError\<close>.
\<close>

fun eval :: "jcontext \<Rightarrow> jexpr \<Rightarrow> jerror + jvalue" where
  "eval ctx (Name x) = (case map_of ctx x of None \<Rightarrow> Inr JUndefined | Some v \<Rightarrow> Inr v)"
| "eval ctx (Getattr e name) =
     (case eval ctx e of Inl err \<Rightarrow> Inl err | Inr v \<Rightarrow> getattr v name)"
| "eval ctx (CallLower e) =
     (case eval ctx e of
        Inl err \<Rightarrow> Inl err
      | Inr (JStr s) \<Rightarrow> Inr (JStr (lower s))
      | Inr JUndefined \<Rightarrow> Inl UndefinedError
      | Inr _ \<Rightarrow> Inl UndefinedError)"

text \<open>
  \<^verbatim>\<open>{{ e }}\<close> prints \<^verbatim>\<open>str\<close> of the value (nothing is escaped: the template is made
  without autoescaping), and \<^verbatim>\<open>Undefined\<close> prints as the empty string. The \<^verbatim>\<open>repr\<close>
  of a dict or list is outside the model; the template prints neither.
\<close>

fun to_str :: "jvalue \<Rightarrow> jerror + string" where
  "to_str (JStr s) = Inr s"
| "to_str JUndefined = Inr ''''"
| "to_str (JDict ep) = Inl NotModelled"
| "to_str (JList vs) = Inl NotModelled"

text \<open>
  The pieces of output are joined; the first error, if any, is the result.
\<close>

fun concat_results :: "(jerror + string) list \<Rightarrow> jerror + string" where
  "concat_results [] = Inr ''''"
| "concat_results (r # rs) =
     (case r of
        Inl err \<Rightarrow> Inl err
      | Inr s \<Rightarrow> (case concat_results rs of Inl err \<Rightarrow> Inl err | Inr t \<Rightarrow> Inr (s @ t)))"

text \<open>
  A for loop renders its body once for each item, in order, with the loop variable bound
  in front of the context. A loop over \<^verbatim>\<open>Undefined\<close> renders nothing; loops over
  strings and dicts are outside the model.
\<close>

fun render_node :: "jcontext \<Rightarrow> jnode \<Rightarrow> jerror + string" where
  "render_node ctx (TemplateData s) = Inr s"
| "render_node ctx (Output e) =
     (case eval ctx e of Inl err \<Rightarrow> Inl err | Inr v \<Rightarrow> to_str v)"
| "render_node ctx (For x e body) =
     (case eval ctx e of
        Inl err \<Rightarrow> Inl err
      | Inr (JList items) \<Rightarrow>
          concat_results
            (map (\<lambda>item. concat_results (map (render_node ((x, item) # ctx)) body)) items)
      | Inr JUndefined \<Rightarrow> Inr ''''
      | Inr _ \<Rightarrow> Inl NotModelled)"

definition render :: "jnode list \<Rightarrow> jcontext \<Rightarrow> jerror + string" where
  "render template ctx = concat_results (map (render_node ctx) template)"

subsection \<open>The template\<close>

text \<open>
  The template text starts with the newline after the opening quotes. Jinja keeps the
  newline after a block tag (\<^verbatim>\<open>trim_blocks\<close> is off), so the loop body starts with the
  newline after \<^verbatim>\<open>{% for ep in endpoints %}\<close> and ends with the one before
  \<^verbatim>\<open>{% endfor %}\<close>; and it drops the single newline that ends the template
  (\<^verbatim>\<open>keep_trailing_newline\<close> is off), so nothing follows the loop.
\<close>

definition template :: "jnode list" where
  \<open>template =
     [TemplateData ''\<newline>from fastapi import FastAPI\<newline>\<newline>app = FastAPI(title="'',
      Output (Name ''title''),
      TemplateData ''", version="'',
      Output (Name ''version''),
      TemplateData
        ''")\<newline>\<newline>@app.get("/health")\<newline>async def health():\<newline>    return {"status": "ok", "timestamp": "'',
      Output (Name ''timestamp''),
      TemplateData ''"}\<newline>\<newline>'',
      For ''ep'' (Name ''endpoints'')
        [TemplateData ''\<newline>@app.'',
         Output (CallLower (Getattr (Name ''ep'') ''method'')),
         TemplateData ''("'',
         Output (Getattr (Name ''ep'') ''path''),
         TemplateData ''")\<newline>async def '',
         Output (Getattr (Name ''ep'') ''func_name''),
         TemplateData ''():\<newline>    return {"demo": "'',
         Output (Getattr (Name ''ep'') ''summary''),
         TemplateData ''"}\<newline>'']]\<close>

text \<open>
  \<^verbatim>\<open>datetime.utcnow().isoformat()\<close> reads the clock, once in each call; the reading is
  the last argument of the model.
\<close>

definition scaffold_fastapi_app ::
  "string \<Rightarrow> string \<Rightarrow> endpoint list \<Rightarrow> string \<Rightarrow> jerror + string" where
  "scaffold_fastapi_app api_name version endpoints utcnow_isoformat =
     render template
       [(''title'', JStr api_name), (''version'', JStr version),
        (''endpoints'', JList (map JDict endpoints)), (''timestamp'', JStr utcnow_isoformat)]"

subsection \<open>Handler declarations as the specification words them\<close>

text \<open>
  The application-declaration lines that precede the handlers.
\<close>

definition app_declaration :: "string \<Rightarrow> string \<Rightarrow> string" where
  \<open>app_declaration api_name version =
     ''\<newline>from fastapi import FastAPI\<newline>\<newline>app = FastAPI(title="'' @ api_name
       @ ''", version="'' @ version @ ''")\<newline>\<newline>''\<close>

text \<open>
  A handler: a decorator line binding a method and a route, the declaration of an
  asynchronous function of a given name, and a body returning a given value.
\<close>

definition handler_declaration :: "string \<Rightarrow> string \<Rightarrow> string \<Rightarrow> string \<Rightarrow> string" where
  \<open>handler_declaration verb route name result =
     ''@app.'' @ verb @ ''("'' @ route @ ''")\<newline>async def '' @ name
       @ ''():\<newline>    return '' @ result\<close>

definition health_handler :: "string \<Rightarrow> string" where
  \<open>health_handler timestamp =
     handler_declaration ''get'' ''/health'' ''health''
       (''{"status": "ok", "timestamp": "'' @ timestamp @ ''"}'')\<close>

definition endpoint_handler :: "endpoint \<Rightarrow> string" where
  \<open>endpoint_handler ep =
     handler_declaration (lower (method ep)) (path ep) (func_name ep)
       (''{"demo": "'' @ get_summary ep @ ''"}'')\<close>

text \<open>
  The handlers as they stand in the output: the health handler, followed by two newlines,
  then one handler for each endpoint, between two newlines.
\<close>

definition handler_blocks :: "endpoint list \<Rightarrow> string \<Rightarrow> string list" where
  \<open>handler_blocks eps timestamp =
     (health_handler timestamp @ ''\<newline>\<newline>'')
       # map (\<lambda>ep. ''\<newline>'' @ endpoint_handler ep @ ''\<newline>'') eps\<close>

text \<open>
  The body of the for loop of \<^const>\<open>template\<close>.
\<close>

definition loop_body :: "jnode list" where
  \<open>loop_body =
     [TemplateData ''\<newline>@app.'',
      Output (CallLower (Getattr (Name ''ep'') ''method'')),
      TemplateData ''("'',
      Output (Getattr (Name ''ep'') ''path''),
      TemplateData ''")\<newline>async def '',
      Output (Getattr (Name ''ep'') ''func_name''),
      TemplateData ''():\<newline>    return {"demo": "'',
      Output (Getattr (Name ''ep'') ''summary''),
      TemplateData ''"}\<newline>'']\<close>

section \<open>The client demo (\<^verbatim>\<open>scaffold_client_demo\<close>)\<close>

text \<open>
  \<^verbatim>\<open>sep.join(xs)\<close>
\<close>

fun join :: "string \<Rightarrow> string list \<Rightarrow> string" where
  "join sep [] = ''''"
| "join sep [x] = x"
| "join sep (x # y # ys) = x @ sep @ join sep (y # ys)"

text \<open>
  In the f-string of the loop, the replacement field \<^verbatim>\<open>{ { 'BASE_URL' } }\<close> is not an
  escaped brace (which is \<^verbatim>\<open>{{\<close>, without a space): its expression is the set display
  \<^verbatim>\<open>{ 'BASE_URL' }\<close>, and the field formats the set that holds the one string
  \<^verbatim>\<open>'BASE_URL'\<close>. \<^verbatim>\<open>str\<close> of a set with one element is the \<^verbatim>\<open>repr\<close> of the element
  in braces, and the \<^verbatim>\<open>repr\<close> of a string without quotes or escapes is the string in
  single quotes.
\<close>

definition str_singleton_set :: "string \<Rightarrow> string" where
  "str_singleton_set s = ''{'' @ SQ @ s @ SQ @ ''}''"

text \<open>
  The list \<^verbatim>\<open>code\<close> starts with the preamble; each turn of the loop appends the
  invocation line and then the print line.
\<close>

definition scaffold_client_demo :: "endpoint list \<Rightarrow> string" where
  \<open>scaffold_client_demo endpoints =
     (let code = [''import requests\<newline>BASE_URL = "http://localhost:8000"\<newline>''];
          code = foldl (\<lambda>code ep.
                   let code = code @ [''resp = requests.'' @ lower (method ep) @ ''(f'' @ SQ
                                       @ str_singleton_set ''BASE_URL'' @ path ep @ SQ @ '')''];
                       code = code @ [''print(resp.status_code, resp.text)'']
                   in code) code endpoints
      in join ''\<newline>'' code)\<close>

text \<open>
  The invocation line emitted for an endpoint, written out.
\<close>

definition invocation_line :: "endpoint \<Rightarrow> string" where
  \<open>invocation_line ep =
     ''resp = requests.'' @ lower (method ep) @ ''(f'{'BASE_URL'}'' @ path ep @ SQ @ '')''\<close>

section \<open>The project files (\<^verbatim>\<open>files\<close>)\<close>

text \<open>
  The dict \<^verbatim>\<open>files\<close> that is handed to \<^verbatim>\<open>make_zip\<close>, in insertion order, as a
  function of the name, the description and the three generated texts.
\<close>

definition files :: "string \<Rightarrow> string \<Rightarrow> string \<Rightarrow> string \<Rightarrow> string \<Rightarrow> (string \<times> string) list" where
  \<open>files api_name desc openapi_yaml fastapi_code client_code =
     [(''openapi.yaml'', openapi_yaml),
      (''backend/main.py'', fastapi_code),
      (''client_demo.py'', client_code),
      (''README.md'', ''# '' @ api_name @ ''\<newline>\<newline>'' @ desc @ ''\<newline>'')]\<close>

text \<open>
  The lines of a text, as \<^verbatim>\<open>str.splitlines\<close> gives them for the line feed: a newline
  ends a line, and a final newline opens no further line.
\<close>

fun splitlines :: "string \<Rightarrow> string list" where
  "splitlines [] = []"
| "splitlines (c # cs) =
     (if c = CHR 0x0A then [] # splitlines cs
      else (case splitlines cs of [] \<Rightarrow> [[c]] | l # ls \<Rightarrow> (c # l) # ls))"

section \<open>The archive (\<^verbatim>\<open>make_zip\<close>)\<close>









section \<open>Case mapping\<close>

lemma upper_lower_char: "upper_char (lower_char c) = upper_char c"
  unfolding upper_char_def lower_char_def Let_def
  by (auto simp: of_char_of [where ?'a = nat] take_bit_eq_mod)

lemma lower_upper_char: "lower_char (upper_char c) = lower_char c"
  unfolding upper_char_def lower_char_def Let_def
  by (auto simp: of_char_of [where ?'a = nat] take_bit_eq_mod)

lemma upper_lower: "upper (lower s) = upper s"
  by (simp add: upper_def lower_def upper_lower_char)

lemma lower_upper: "lower (upper s) = lower s"
  by (simp add: upper_def lower_def lower_upper_char)

lemma upper_GET: "upper ''GET'' = ''GET''"
  by code_simp

lemma upper_POST: "upper ''POST'' = ''POST''"
  by code_simp

text \<open>The source's test on the upper-cased method is the comparison without regard to case.\<close>

lemma upper_eq_iff_ci:
  assumes "upper verb = verb"
  shows "upper s = verb \<longleftrightarrow> lower s = lower verb"
proof
  assume "upper s = verb"
  then have "lower (upper s) = lower verb" by simp
  then show "lower s = lower verb" by (simp add: lower_upper)
next
  assume "lower s = lower verb"
  then have "upper (lower s) = upper (lower verb)" by simp
  then show "upper s = verb" using assms by (simp add: upper_lower)
qed

lemma in_methods_iff_occurs_ci:
  assumes "upper verb = verb"
  shows "verb \<in> set (map (\<lambda>ep. upper (method ep)) eps) \<longleftrightarrow> occurs_ci verb eps"
proof -
  have "verb \<in> set (map (\<lambda>ep. upper (method ep)) eps)
          \<longleftrightarrow> (\<exists>ep \<in> set eps. upper (method ep) = verb)"
    by auto
  also have "\<dots> \<longleftrightarrow> (\<exists>ep \<in> set eps. lower (method ep) = lower verb)"
    using upper_eq_iff_ci [OF assms] by simp
  finally show ?thesis
    by (simp add: occurs_ci_def list_ex_iff)
qed

section \<open>Properties of the quality score\<close>

lemma sum_list_ones: "sum_list (map (\<lambda>x. (1::int)) xs) = int (length xs)"
  by (induction xs) simp_all

lemma length_le_filter_iff: "length xs \<le> length (filter P xs) \<longleftrightarrow> list_all P xs"
proof (induction xs)
  case Nil
  then show ?case by simp
next
  case (Cons x xs)
  have le: "length (filter P xs) \<le> length xs"
    by simp
  show ?case
  proof (cases "P x")
    case True
    with Cons.IH show ?thesis by simp
  next
    case False
    have "\<not> Suc (length xs) \<le> length (filter P xs)"
      using le by arith
    with False show ?thesis by simp
  qed
qed

lemma clarity_count_all:
  "int (length eps) \<le> int (length (filter (\<lambda>ep. 3 < length (func_name ep)) eps))
     \<longleftrightarrow> list_all clear_name eps"
  using length_le_filter_iff [of eps "\<lambda>ep. 3 < length (func_name ep)"]
  by (simp add: clear_name_def [abs_def])

lemma clarity_count_some:
  "0 < int (length (filter (\<lambda>ep. 3 < length (func_name ep)) eps))
     \<longleftrightarrow> list_ex clear_name eps"
  by (auto simp: list_ex_iff clear_name_def filter_empty_conv)

lemma evaluate_api_quality_sum:
  "evaluate_api_quality eps =
     (if eps = [] then 0 else breadth_points eps + crud_points eps + clarity_points eps)"
proof (cases "eps = []")
  case True
  then show ?thesis by (simp add: evaluate_api_quality_def)
next
  case False
  have g: "''GET'' \<in> set (map (\<lambda>ep. upper (method ep)) eps) \<longleftrightarrow> occurs_ci ''GET'' eps"
    by (rule in_methods_iff_occurs_ci [OF upper_GET])
  have p: "''POST'' \<in> set (map (\<lambda>ep. upper (method ep)) eps) \<longleftrightarrow> occurs_ci ''POST'' eps"
    by (rule in_methods_iff_occurs_ci [OF upper_POST])
  show ?thesis
    using False
    unfolding evaluate_api_quality_def Let_def g p sum_list_ones
      clarity_count_all clarity_count_some
    by (auto simp: breadth_points_def crud_points_def clarity_points_def)
qed

lemma breadth_points_range: "1 \<le> breadth_points eps \<and> breadth_points eps \<le> 5"
  by (simp add: breadth_points_def)

lemma crud_points_range: "0 \<le> crud_points eps \<and> crud_points eps \<le> 3"
  by (simp add: crud_points_def)

lemma clarity_points_range: "0 \<le> clarity_points eps \<and> clarity_points eps \<le> 2"
  by (simp add: clarity_points_def)

text \<open>
  Claim C2. The score is 0 on the empty list and otherwise the sum of the breadth, CRUD and
  clarity contributions, each computed as the specification words it; the result is an
  integer between 0 and 10.
\<close>

theorem evaluate_api_quality_score:
  "evaluate_api_quality [] = 0
   \<and> evaluate_api_quality eps =
       (if eps = [] then 0 else breadth_points eps + crud_points eps + clarity_points eps)
   \<and> 0 \<le> evaluate_api_quality eps \<and> evaluate_api_quality eps \<le> 10"
proof -
  have "evaluate_api_quality [] = 0"
    by (simp add: evaluate_api_quality_def)
  moreover note evaluate_api_quality_sum [of eps]
  moreover have "0 \<le> evaluate_api_quality eps \<and> evaluate_api_quality eps \<le> 10"
    using breadth_points_range [of eps] crud_points_range [of eps]
      clarity_points_range [of eps]
    by (simp add: evaluate_api_quality_sum)
  ultimately show ?thesis
    by blast
qed

subsection \<open>Reordering the endpoints\<close>

lemma mset_eq_length_filter:
  assumes "mset xs = mset ys"
  shows "length (filter P xs) = length (filter P ys)"
proof -
  have "mset (filter P xs) = mset (filter P ys)"
    using assms by simp
  then show ?thesis
    by (rule mset_eq_length)
qed

lemma mset_eq_set_map:
  assumes "mset xs = mset ys"
  shows "set (map f xs) = set (map f ys)"
  using mset_eq_setD [OF assms] by simp

text \<open>
  Claim C10. The score does not depend on the order of the endpoints: two lists with the
  same elements, each as often in one as in the other, get the same score.
\<close>

theorem evaluate_api_quality_permutation:
  assumes "mset eps = mset eps'"
  shows "evaluate_api_quality eps = evaluate_api_quality eps'"
proof -
  have len: "length eps = length eps'"
    using assms by (rule mset_eq_length)
  then have nil: "eps = [] \<longleftrightarrow> eps' = []"
    by (metis length_0_conv)
  show ?thesis
    unfolding evaluate_api_quality_def Let_def sum_list_ones
      mset_eq_set_map [OF assms, of "\<lambda>ep. upper (method ep)"]
      mset_eq_length_filter [OF assms, of "\<lambda>ep. 3 < length (func_name ep)"]
      len nil
    by (rule refl)
qed

theorem evaluate_api_quality_permutation_witness:
  "mset todo_api = mset (rev todo_api)
   \<and> rev todo_api \<noteq> todo_api
   \<and> evaluate_api_quality todo_api = evaluate_api_quality (rev todo_api)"
proof -
  have m: "mset todo_api = mset (rev todo_api)"
    by simp
  have "rev todo_api \<noteq> todo_api"
    by (simp add: todo_api_def)
  with m evaluate_api_quality_permutation [OF m] show ?thesis
    by blast
qed

section \<open>Properties of the OpenAPI document\<close>

lemma update_append_same:
  "k \<notin> fst ` set d \<Longrightarrow> AList.update k v (d @ [(k, w)]) = AList.update k v d"
  by (induction d) auto

lemma add_endpoint_update:
  "add_endpoint ps ep =
     AList.update (path ep)
       (AList.update (lower (method ep)) (operation_entry (get_summary ep)) (ops_at ps (path ep))) ps"
proof (cases "map_of ps (path ep)")
  case None
  then have "path ep \<notin> fst ` set ps"
    by (simp add: map_of_eq_None_iff)
  with None show ?thesis
    by (simp add: add_endpoint_def setdefault_def ops_at_def operation_entry_def
        update_append_same)
next
  case (Some ops)
  then show ?thesis
    by (simp add: add_endpoint_def setdefault_def ops_at_def operation_entry_def)
qed

lemma map_of_add_endpoint:
  "map_of (add_endpoint ps ep) =
     (map_of ps)(path ep \<mapsto>
        AList.update (lower (method ep)) (operation_entry (get_summary ep)) (ops_at ps (path ep)))"
  by (simp add: add_endpoint_update update_conv')

lemma paths_lookup_add_endpoint:
  "paths_lookup (add_endpoint ps ep) p m =
     (if is_for p m ep then Some (operation_entry (get_summary ep)) else paths_lookup ps p m)"
  by (auto simp: paths_lookup_def map_of_add_endpoint update_conv' ops_at_def is_for_def
      split: option.splits)

lemma spec_paths_snoc: "spec_paths (eps @ [ep]) = add_endpoint (spec_paths eps) ep"
  by (simp add: spec_paths_def)

lemma paths_lookup_spec_paths:
  "paths_lookup (spec_paths eps) p m =
     map_option (\<lambda>ep. operation_entry (get_summary ep)) (find (is_for p m) (rev eps))"
proof (induction eps rule: rev_induct)
  case Nil
  show ?case by (simp add: spec_paths_def paths_lookup_def)
next
  case (snoc ep eps)
  then show ?case
    by (simp add: spec_paths_snoc paths_lookup_add_endpoint)
qed


lemma distinct_add_endpoint:
  "distinct (map fst ps) \<Longrightarrow> distinct (map fst (add_endpoint ps ep))"
  by (simp add: add_endpoint_update distinct_update)

lemma distinct_spec_paths: "distinct (map fst (spec_paths eps))"
  by (induction eps rule: rev_induct)
    (simp_all add: spec_paths_snoc distinct_add_endpoint, simp add: spec_paths_def)




lemma inner_distinct_add_endpoint:
  assumes "inner_distinct ps"
  shows "inner_distinct (add_endpoint ps ep)"
  using assms
  by (auto simp: inner_distinct_def map_of_add_endpoint ops_at_def distinct_update
      split: option.splits if_splits)

lemma inner_distinct_spec_paths: "inner_distinct (spec_paths eps)"
proof (induction eps rule: rev_induct)
  case Nil
  show ?case by (simp add: spec_paths_def inner_distinct_def)
next
  case (snoc ep eps)
  then show ?case by (simp add: spec_paths_snoc inner_distinct_add_endpoint)
qed











lemma find_append_none:
  assumes "\<forall>x \<in> set xs. \<not> P x"
  shows "find P (xs @ ys) = find P ys"
  using assms by (induction xs) simp_all

lemma filter_key_unique:
  assumes "distinct (map fst al)" and "map_of al k = Some v"
  shows "filter (\<lambda>kv. fst kv = k) al = [(k, v)]"
  using assms
proof (induction al)
  case Nil
  then show ?case by simp
next
  case (Cons a al)
  show ?case
  proof (cases "fst a = k")
    case True
    with Cons.prems have "a = (k, v)"
      by (cases a) simp
    moreover have "k \<notin> fst ` set al"
      using Cons.prems(1) True by auto
    then have "\<forall>kv \<in> set al. fst kv \<noteq> k"
      by (metis image_eqI)
    then have "filter (\<lambda>kv. fst kv = k) al = []"
      by (simp add: filter_empty_conv)
    ultimately show ?thesis by simp
  next
    case False
    with Cons show ?thesis by (cases a) simp
  qed
qed

text \<open>
  Claim C5. When no later endpoint is for the same path and lower-cased method, the
  entry for that pair carries this endpoint's summary, whatever came before it (the last
  write wins); the paths mapping has exactly one key for the path and the inner mapping
  exactly one key for the method, so earlier occurrences leave no entry of their own.
  The function is total: nothing is raised.
\<close>

theorem generate_openapi_last_write_wins:
  assumes "\<forall>later \<in> set ys. \<not> is_for (path ep) (lower (method ep)) later"
  shows "paths_lookup (spec_paths (xs @ ep # ys)) (path ep) (lower (method ep)) =
           Some (operation_entry (get_summary ep))
         \<and> (\<exists>ops. filter (\<lambda>kv. fst kv = path ep) (spec_paths (xs @ ep # ys)) = [(path ep, ops)]
                \<and> filter (\<lambda>kv. fst kv = lower (method ep)) ops =
                    [(lower (method ep), operation_entry (get_summary ep))])"
proof -
  let ?ps = "spec_paths (xs @ ep # ys)"
  have "find (is_for (path ep) (lower (method ep))) (rev ys @ ep # rev xs) = Some ep"
    using assms by (simp add: find_append_none is_for_def)
  then have look: "paths_lookup ?ps (path ep) (lower (method ep)) =
      Some (operation_entry (get_summary ep))"
    by (simp add: paths_lookup_spec_paths)
  then obtain ops where ops: "map_of ?ps (path ep) = Some ops"
    and ent: "map_of ops (lower (method ep)) = Some (operation_entry (get_summary ep))"
    by (auto simp: paths_lookup_def split: option.splits)
  have "distinct (map fst ops)"
    using inner_distinct_spec_paths [of "xs @ ep # ys"] ops
    by (simp add: inner_distinct_def)
  then have "filter (\<lambda>kv. fst kv = lower (method ep)) ops =
      [(lower (method ep), operation_entry (get_summary ep))]"
    using ent by (rule filter_key_unique)
  moreover have "filter (\<lambda>kv. fst kv = path ep) ?ps = [(path ep, ops)]"
    using distinct_spec_paths ops by (rule filter_key_unique)
  ultimately show ?thesis
    using look by blast
qed


theorem generate_openapi_last_write_wins_witness:
  "spec_paths todo_twice = [(''/todos'', [(''get'', operation_entry ''All todos'')])]
   \<and> paths_lookup (spec_paths todo_twice) ''/todos'' ''get'' =
       Some (operation_entry ''All todos'')"
proof -
  let ?a = "\<lparr>path = ''/todos'', method = ''GET'', summary = Some ''List todos'',
              func_name = ''list_todos''\<rparr>"
  let ?b = "\<lparr>path = ''/todos'', method = ''get'', summary = Some ''All todos'',
              func_name = ''all_todos''\<rparr>"
  have split: "todo_twice = [?a] @ ?b # []"
    by (simp add: todo_twice_def)
  have none: "\<forall>later \<in> set []. \<not> is_for (path ?b) (lower (method ?b)) later"
    by simp
  have low: "lower ''get'' = ''get''"
    by code_simp
  have "spec_paths todo_twice = [(''/todos'', [(''get'', operation_entry ''All todos'')])]"
    by code_simp
  with generate_openapi_last_write_wins [OF none, of "[?a]"] show ?thesis
    by (simp add: split low get_summary_def)
qed

lemma add_endpoint_cong:
  assumes "path a = path b" and "method a = method b" and "summary a = summary b"
  shows "add_endpoint ps a = add_endpoint ps b"
  using assms by (simp add: add_endpoint_def get_summary_def)

lemma foldl_add_endpoint_cong:
  assumes "list_all2 (\<lambda>a b. path a = path b \<and> method a = method b \<and> summary a = summary b)
             eps eps'"
  shows "foldl add_endpoint ps eps = foldl add_endpoint ps eps'"
  using assms
proof (induction eps eps' arbitrary: ps rule: list_all2_induct)
  case Nil
  show ?case by simp
next
  case (Cons a eps b eps')
  then show ?case
    by (simp add: add_endpoint_cong [of a b])
qed

text \<open>
  Claim C9. Two endpoint lists of equal length that agree element by element on path,
  method and summary give the same document text, whatever their \<^verbatim>\<open>func_name\<close>s are.
\<close>

theorem generate_openapi_ignores_func_name:
  assumes "list_all2 (\<lambda>a b. path a = path b \<and> method a = method b \<and> summary a = summary b)
             eps eps'"
  shows "generate_openapi safe_dump api_name version desc eps =
           generate_openapi safe_dump api_name version desc eps'"
  using foldl_add_endpoint_cong [OF assms, of "[]"]
  by (simp add: generate_openapi_def openapi_spec_def spec_paths_def)

theorem generate_openapi_ignores_func_name_witness:
  "list_all2 (\<lambda>a b. path a = path b \<and> method a = method b \<and> summary a = summary b)
     todo_api (map (\<lambda>ep. ep\<lparr>func_name := ''handler''\<rparr>) todo_api)
   \<and> map func_name (map (\<lambda>ep. ep\<lparr>func_name := ''handler''\<rparr>) todo_api)
       \<noteq> map func_name todo_api
   \<and> (\<forall>safe_dump api_name version desc.
         generate_openapi safe_dump api_name version desc todo_api =
         generate_openapi safe_dump api_name version desc
           (map (\<lambda>ep. ep\<lparr>func_name := ''handler''\<rparr>) todo_api))"
proof -
  have agree: "list_all2 (\<lambda>a b. path a = path b \<and> method a = method b \<and> summary a = summary b)
      todo_api (map (\<lambda>ep. ep\<lparr>func_name := ''handler''\<rparr>) todo_api)"
    by (simp add: todo_api_def)
  have "map func_name (map (\<lambda>ep. ep\<lparr>func_name := ''handler''\<rparr>) todo_api)
      \<noteq> map func_name todo_api"
    by (simp add: todo_api_def)
  with agree generate_openapi_ignores_func_name [OF agree] show ?thesis
    by blast
qed

section \<open>Properties of the server scaffold\<close>

lemma concat_results_Inr:
  "concat_results (map (\<lambda>x. Inr (f x)) xs) = Inr (concat (map f xs))"
  by (induction xs) simp_all

lemma template_loop:
  \<open>template =
     [TemplateData ''\<newline>from fastapi import FastAPI\<newline>\<newline>app = FastAPI(title="'',
      Output (Name ''title''),
      TemplateData ''", version="'',
      Output (Name ''version''),
      TemplateData
        ''")\<newline>\<newline>@app.get("/health")\<newline>async def health():\<newline>    return {"status": "ok", "timestamp": "'',
      Output (Name ''timestamp''),
      TemplateData ''"}\<newline>\<newline>'',
      For ''ep'' (Name ''endpoints'') loop_body]\<close>
  by (simp add: template_def loop_body_def)

lemma render_loop_body:
  \<open>concat_results (map (render_node ((''ep'', JDict ep) # ctx)) loop_body) =
     Inr (''\<newline>'' @ endpoint_handler ep @ ''\<newline>'')\<close>
  by (simp add: loop_body_def endpoint_handler_def handler_declaration_def get_summary_def
      split: option.splits)

text \<open>
  The text of the server scaffold, written out.
\<close>

lemma scaffold_fastapi_app_text:
  \<open>scaffold_fastapi_app api_name version eps timestamp =
     Inr (app_declaration api_name version @ health_handler timestamp @ ''\<newline>\<newline>''
          @ concat (map (\<lambda>ep. ''\<newline>'' @ endpoint_handler ep @ ''\<newline>'') eps))\<close>
  by (simp add: scaffold_fastapi_app_def render_def template_loop render_loop_body
      concat_results_Inr o_def app_declaration_def health_handler_def
      handler_declaration_def)

text \<open>The scaffold of the Todo demo, as the page shows it.\<close>

lemma scaffold_fastapi_app_todo_api:
  \<open>scaffold_fastapi_app ''Todo API'' ''0.1.0'' todo_api ''2024-01-01T00:00:00'' =
     Inr (''\<newline>from fastapi import FastAPI\<newline>\<newline>app = FastAPI(title="Todo API", version="0.1.0")\<newline>\<newline>''
          @ ''@app.get("/health")\<newline>async def health():\<newline>    return {"status": "ok", "timestamp": "2024-01-01T00:00:00"}\<newline>\<newline>''
          @ ''\<newline>@app.get("/todos")\<newline>async def list_todos():\<newline>    return {"demo": "List todos"}\<newline>''
          @ ''\<newline>@app.post("/todos")\<newline>async def create_todo():\<newline>    return {"demo": "Create todo"}\<newline>'')\<close>
  by code_simp

text \<open>
  Claim C3. The rendering never fails, and the output is the application declaration
  followed by exactly \<open>length eps + 1\<close> handler declarations: first the health handler,
  bound to GET \<^verbatim>\<open>/health\<close> and returning the status and the one timestamp of the call;
  then, for each endpoint in input order, a handler decorated with the lower-cased method
  and the path, declared under \<^verbatim>\<open>func_name\<close> as it is, whose body returns
  \<^verbatim>\<open>{"demo": summary}\<close>.
\<close>

theorem scaffold_fastapi_app_handlers:
  "scaffold_fastapi_app api_name version eps timestamp =
     Inr (app_declaration api_name version @ concat (handler_blocks eps timestamp))
   \<and> length (handler_blocks eps timestamp) = length eps + 1"
  by (simp add: scaffold_fastapi_app_text handler_blocks_def)

section \<open>Properties of the client demo\<close>

lemma foldl_client:
  "foldl (\<lambda>code ep. (code @ [f ep]) @ [g]) acc eps
     = acc @ concat (map (\<lambda>ep. [f ep, g]) eps)"
  by (induction eps arbitrary: acc) simp_all

text \<open>
  The output is the preamble and two lines for each endpoint, in input order, joined by
  newlines: \<open>2 * length eps + 1\<close> pieces in all.
\<close>

lemma scaffold_client_demo_lines:
  \<open>scaffold_client_demo eps =
     join ''\<newline>''
       (''import requests\<newline>BASE_URL = "http://localhost:8000"\<newline>''
          # concat (map (\<lambda>ep. [invocation_line ep, ''print(resp.status_code, resp.text)'']) eps))
   \<and> length (''import requests\<newline>BASE_URL = "http://localhost:8000"\<newline>''
          # concat (map (\<lambda>ep. [invocation_line ep, ''print(resp.status_code, resp.text)'']) eps))
       = 2 * length eps + 1\<close>
proof -
  have inv: \<open>''resp = requests.'' @ lower (method ep) @ ''(f'' @ SQ
      @ str_singleton_set ''BASE_URL'' @ path ep @ SQ @ '')'' = invocation_line ep\<close> for ep
    by (simp add: invocation_line_def str_singleton_set_def SQ_def)
  have len: "length (concat (map (\<lambda>ep. [f ep, g]) eps)) = 2 * length eps" for f :: "endpoint \<Rightarrow> string" and g
    by (induction eps) simp_all
  show ?thesis
    unfolding scaffold_client_demo_def Let_def inv foldl_client
    by (simp add: len)
qed

text \<open>
  Claim C4. The invocation line is to call the request function against the base URL
  joined with the path. For the first endpoint of the Todo demo the emitted line is
  \<^verbatim>\<open>resp = requests.get(f'{'BASE_URL'}/todos')\<close>: inside the braces stands the string
  literal \<^verbatim>\<open>'BASE_URL'\<close>, not the constant \<^verbatim>\<open>BASE_URL\<close> that the preamble declares.
\<close>

theorem scaffold_client_demo_quotes_base_url:
  \<open>scaffold_client_demo [\<lparr>path = ''/todos'', method = ''GET'', summary = Some ''List todos'',
        func_name = ''list_todos''\<rparr>] = ''import requests\<newline>BASE_URL = "http://localhost:8000"\<newline>\<newline>resp = requests.get(f'{'BASE_URL'}/todos')\<newline>print(resp.status_code, resp.text)''\<close>
  by code_simp

section \<open>Properties of the project files\<close>

lemma splitlines_line:
  assumes "CHR 0x0A \<notin> set s"
  shows "splitlines (s @ CHR 0x0A # rest) = s # splitlines rest"
  using assms by (induction s) auto

text \<open>
  Claim C8, as amended. The archive has four entries, \<^verbatim>\<open>README.md\<close> the last; its text
  is \<^verbatim>\<open># <api_name>\<close>, an empty line, the description, and a final newline. When the
  name and the description hold no newline these are three lines.
\<close>

theorem readme_md_entry:
  \<open>map_of (files api_name desc openapi_yaml fastapi_code client_code) ''README.md'' =
     Some (''# '' @ api_name @ ''\<newline>\<newline>'' @ desc @ ''\<newline>'')
   \<and> map fst (files api_name desc openapi_yaml fastapi_code client_code) =
       [''openapi.yaml'', ''backend/main.py'', ''client_demo.py'', ''README.md'']
   \<and> (CHR 0x0A \<notin> set api_name \<and> CHR 0x0A \<notin> set desc \<longrightarrow>
        splitlines (''# '' @ api_name @ ''\<newline>\<newline>'' @ desc @ ''\<newline>'') =
          [''# '' @ api_name, '''', desc])\<close>
proof (intro conjI impI)
  show \<open>map_of (files api_name desc openapi_yaml fastapi_code client_code) ''README.md'' =
     Some (''# '' @ api_name @ ''\<newline>\<newline>'' @ desc @ ''\<newline>'')\<close>
    by (simp add: files_def)
  show \<open>map fst (files api_name desc openapi_yaml fastapi_code client_code) =
       [''openapi.yaml'', ''backend/main.py'', ''client_demo.py'', ''README.md'']\<close>
    by (simp add: files_def)
next
  assume a: "CHR 0x0A \<notin> set api_name \<and> CHR 0x0A \<notin> set desc"
  then have h: \<open>CHR 0x0A \<notin> set (''# '' @ api_name)\<close>
    by simp
  have \<open>splitlines ((''# '' @ api_name) @ CHR 0x0A # (CHR 0x0A # desc @ [CHR 0x0A])) =
      (''# '' @ api_name) # splitlines (CHR 0x0A # desc @ [CHR 0x0A])\<close>
    using h by (rule splitlines_line)
  moreover have "splitlines (desc @ CHR 0x0A # []) = desc # splitlines []"
    using a by (intro splitlines_line) simp
  ultimately show \<open>splitlines (''# '' @ api_name @ ''\<newline>\<newline>'' @ desc @ ''\<newline>'') =
          [''# '' @ api_name, '''', desc]\<close>
    by simp
qed

theorem readme_md_entry_witness:
  \<open>CHR 0x0A \<notin> set ''Todo API''
   \<and> CHR 0x0A \<notin> set ''Auto-generated Todo API using Agentic AI API Engineer.''
   \<and> splitlines (''# '' @ ''Todo API'' @ ''\<newline>\<newline>''
         @ ''Auto-generated Todo API using Agentic AI API Engineer.'' @ ''\<newline>'') =
       [''# '' @ ''Todo API'', '''', ''Auto-generated Todo API using Agentic AI API Engineer.'']\<close>
proof -
  have a: \<open>CHR 0x0A \<notin> set ''Todo API''
      \<and> CHR 0x0A \<notin> set ''Auto-generated Todo API using Agentic AI API Engineer.''\<close>
    by simp
  with readme_md_entry [of "''Todo API''"
      "''Auto-generated Todo API using Agentic AI API Engineer.''"]
  show ?thesis
    by blast
qed

text \<open>
  Claim C8 as stated fails: for the Todo demo the entry has three lines, the second one
  empty, not the two lines \<^verbatim>\<open># Todo API\<close> and the description.
\<close>

theorem readme_md_two_lines_counterexample:
  \<open>\<exists>text. map_of (files ''Todo API'' ''Auto-generated Todo API using Agentic AI API Engineer.''
               '''' '''' '''') ''README.md'' = Some text
     \<and> length (splitlines text) = 3
     \<and> splitlines text \<noteq>
         [''# Todo API'', ''Auto-generated Todo API using Agentic AI API Engineer.'']\<close>
  by (simp add: files_def)

section \<open>Properties of the archive\<close>







section \<open>The timestamp of the server scaffold\<close>

text \<open>
  The clock reading enters the server scaffold at one place only: all calls with the same
  name, version and endpoints give texts that are the same before and the same after the
  timestamp each of them embeds.
\<close>

lemma scaffold_fastapi_app_timestamp_slot:
  "\<exists>before after. \<forall>utcnow.
     scaffold_fastapi_app api_name version endpoints utcnow = Inr (before @ utcnow @ after)"
proof -
  let ?before = \<open>app_declaration api_name version
      @ ''@app.get("/health")\<newline>async def health():\<newline>    return {"status": "ok", "timestamp": "''\<close>
  let ?after = \<open>''"}\<newline>\<newline>''
      @ concat (map (\<lambda>ep. ''\<newline>'' @ endpoint_handler ep @ ''\<newline>'') endpoints)\<close>
  have "scaffold_fastapi_app api_name version endpoints t = Inr (?before @ t @ ?after)" for t
    by (simp add: scaffold_fastapi_app_text health_handler_def handler_declaration_def)
  then show ?thesis
    by blast
qed

end
